theory Spec2Isabelle
  imports Complex_Main "HOL-Library.Sublist" "HOL-Library.Word"
begin

section \<open>Responses of the platform API\<close>

text \<open>
  Both pagination loops of the repository look at a response of \<^verbatim>\<open>make_request\<close> in the
  same way: the call raised, the response is falsy or has no \<^verbatim>\<open>"response"\<close> key, or it
  carries a page. A page is the list found under the data key (a missing key reads as the
  empty list), the \<^verbatim>\<open>next_cursor\<close> field (\<open>None\<close> when absent) and the \<^verbatim>\<open>more\<close> flag
  (\<open>False\<close> when absent).
\<close>

datatype 'a api_result = Raised | NoResponse | Page "'a list" "string option" bool

text \<open>Python truth value of a cursor: \<^verbatim>\<open>None\<close> and the empty string are falsy.\<close>

definition truthy :: "string option \<Rightarrow> bool" where
  "truthy c = (c \<noteq> None \<and> c \<noteq> Some [])"

section \<open>Cursor pagination (\<^verbatim>\<open>order_managers.py\<close>)\<close>

definition MAX_DAYS :: int where
  "MAX_DAYS = 15"

text \<open>\<^verbatim>\<open>BaseOrderManager._get_time_range\<close>; \<open>now\<close> is \<^verbatim>\<open>int(time.time())\<close>.\<close>

definition get_time_range :: "int \<Rightarrow> int \<Rightarrow> int \<times> int" where
  "get_time_range now days =
    (let days = min days MAX_DAYS;
         time_to = now;
         time_from = time_to - (86400 * days)
     in (time_from, time_to))"

text \<open>
  \<^verbatim>\<open>BaseOrderManager._fetch_paginated_data\<close>. The loop is \<^verbatim>\<open>while True\<close>, so it is a
  partial function: \<open>None\<close> is a run that never returns. \<open>api base_params n c\<close> is the
  outcome of the \<open>n\<close>-th call of \<^verbatim>\<open>make_request\<close> in the run, sent with cursor \<open>c\<close>. Besides the
  source's \<^verbatim>\<open>all_data\<close>, \<^verbatim>\<open>next_cursor\<close> and \<^verbatim>\<open>page_count\<close> the state records the pages
  received so far, in order, so that properties can speak about them.
\<close>

partial_function (option) fetch_pages ::
  "('p \<Rightarrow> nat \<Rightarrow> string option \<Rightarrow> 'a api_result) \<Rightarrow> 'p \<Rightarrow> 'a list \<Rightarrow> string option \<Rightarrow> nat
     \<Rightarrow> 'a list list \<Rightarrow> ('a list \<times> nat \<times> 'a list list) option" where
  "fetch_pages api base_params all_data next_cursor page_count received =
    (let page_count = page_count + 1 in
     case api base_params page_count next_cursor of
       Raised \<Rightarrow> Some (all_data, page_count, received)
     | NoResponse \<Rightarrow> Some (all_data, page_count, received)
     | Page page_data cursor' has_more \<Rightarrow>
         if page_data = [] then Some (all_data, page_count, received @ [page_data])
         else if \<not> has_more \<or> \<not> truthy cursor'
           then Some (all_data @ page_data, page_count, received @ [page_data])
           else fetch_pages api base_params (all_data @ page_data) cursor'
                  page_count (received @ [page_data]))"

declare fetch_pages.simps [code]

definition fetch_paginated_data ::
  "('p \<Rightarrow> nat \<Rightarrow> string option \<Rightarrow> 'a api_result) \<Rightarrow> 'p \<Rightarrow> 'a list option" where
  "fetch_paginated_data api base_params =
    map_option fst (fetch_pages api base_params [] None 0 [])"

record order_params =
  o_time_range_field :: string
  o_time_from :: int
  o_time_to :: int
  o_page_size :: int
  o_order_status :: string
  o_response_optional_fields :: string

text \<open>\<^verbatim>\<open>ShopeeOrderManager.get_order_list\<close>.\<close>

definition get_order_list ::
  "(order_params \<Rightarrow> nat \<Rightarrow> string option \<Rightarrow> 'a api_result) \<Rightarrow> int \<Rightarrow> string \<Rightarrow> int
     \<Rightarrow> 'a list option" where
  "get_order_list api now status days =
    (case get_time_range now days of (tf, tt) \<Rightarrow>
       fetch_paginated_data api
         \<lparr>o_time_range_field = ''create_time'', o_time_from = tf, o_time_to = tt, o_page_size = 100,
          o_order_status = status, o_response_optional_fields = ''order_status''\<rparr>)"

text \<open>A response at which the loop leaves: every \<^verbatim>\<open>break\<close> of the loop body.\<close>

definition exhausted :: "'a api_result \<Rightarrow> bool" where
  "exhausted r =
    (case r of Raised \<Rightarrow> True | NoResponse \<Rightarrow> True
     | Page page_data c has_more \<Rightarrow> page_data = [] \<or> \<not> has_more \<or> \<not> truthy c)"

text \<open>
  An example server: two pages of one record each, with a cursor and \<^verbatim>\<open>more\<close> set, then
  empty pages that still carry a cursor.
\<close>

definition three_page_server :: "unit \<Rightarrow> nat \<Rightarrow> string option \<Rightarrow> nat api_result" where
  "three_page_server p n c =
    (if n < 3 then Page [n] (Some ''next'') True else Page [] (Some ''next'') True)"

section \<open>Rate-limited sheet writer (\<^verbatim>\<open>sheet_manager.py\<close>)\<close>











datatype call_result = Returned bool | InitRaised

datatype step = Finish call_result | Continue







section \<open>Worksheet upload (\<^verbatim>\<open>google_sheets_manager.py\<close>)\<close>

text \<open>
  Strings are lists of characters with codes below 256. \<open>is_space\<close> is Python's
  \<^verbatim>\<open>str.isspace\<close> on these codes, which is what \<^verbatim>\<open>str.strip()\<close> removes at both ends.
\<close>

definition is_space :: "char \<Rightarrow> bool" where
  "is_space c = (of_char c \<in> {9, 10, 11, 12, 13, 28, 29, 30, 31, 32, 133, 160 :: nat})"

definition strip :: "string \<Rightarrow> string" where
  "strip s = rev (dropWhile is_space (rev (dropWhile is_space s)))"

text \<open>\<^verbatim>\<open>name.replace(char, '')\<close> for a one-character string \<^verbatim>\<open>char\<close>.\<close>

definition replace_char :: "char \<Rightarrow> string \<Rightarrow> string" where
  "replace_char c name = filter (\<lambda>x. x \<noteq> c) name"

definition invalid_chars :: "char list" where
  "invalid_chars = '':/?*[]''"

text \<open>The local function \<^verbatim>\<open>clean_sheet_name\<close> of \<^verbatim>\<open>upload_to_sheet\<close>.\<close>

definition clean_sheet_name :: "string \<Rightarrow> string" where
  "clean_sheet_name name = take 31 (strip (fold replace_char invalid_chars name))"

text \<open>
  The calls \<^verbatim>\<open>upload_to_sheet\<close> makes to the spreadsheet service, in the order made:
  \<^verbatim>\<open>spreadsheets().get\<close>, \<^verbatim>\<open>batchUpdate\<close> with one \<^verbatim>\<open>addSheet\<close> request (the title),
  \<^verbatim>\<open>values().clear\<close> (the range) and \<^verbatim>\<open>values().batchUpdate\<close> (the range and the rows).
  The service answers the \<open>n\<close>-th call of an upload with the titles of the sheets (read
  only after a \<^verbatim>\<open>get\<close>), or raises \<^verbatim>\<open>HttpError\<close> or another exception.
\<close>

datatype service_call =
  GetSpreadsheet string
  | AddSheet string string
  | ClearValues string string
  | UpdateValues string string "string list list"

datatype response = Ok "string list" | HttpError | OtherError

definition is_ok :: "response \<Rightarrow> bool" where
  "is_ok r = (case r of Ok _ \<Rightarrow> True | _ \<Rightarrow> False)"

text \<open>The range \<^verbatim>\<open>f"'{clean_sheet_name}'!A:Z"\<close>, with the cells as a parameter.\<close>

definition sheet_range :: "string \<Rightarrow> string \<Rightarrow> string" where
  "sheet_range title cells = [CHR 0x27] @ title @ [CHR 0x27] @ ''!'' @ cells"

text \<open>
  \<^verbatim>\<open>GoogleSheetsManager.upload_to_sheet\<close>: the boolean it returns and the calls it made.
  A failure to clear is only printed; every other exception ends the upload with
  \<^verbatim>\<open>False\<close>.
\<close>

definition upload_to_sheet ::
  "bool \<Rightarrow> (nat \<Rightarrow> service_call \<Rightarrow> response) \<Rightarrow> string \<Rightarrow> string \<Rightarrow> string list list
     \<Rightarrow> bool \<times> service_call list" where
  "upload_to_sheet is_authenticated service spreadsheet_id sheet_name data =
    (if \<not> is_authenticated then (False, [])
     else
       let clean = clean_sheet_name sheet_name;
           get = GetSpreadsheet spreadsheet_id;
           update = UpdateValues spreadsheet_id (sheet_range clean ''A1'') data
       in case service 0 get of
            HttpError \<Rightarrow> (False, [get])
          | OtherError \<Rightarrow> (False, [get])
          | Ok spreadsheet \<Rightarrow>
              (case service 1 get of
                 HttpError \<Rightarrow> (False, [get, get])
               | OtherError \<Rightarrow> (False, [get, get])
               | Ok sheets \<Rightarrow>
                   let sheet_exists = (clean \<in> set sheets) in
                   if \<not> sheet_exists then
                     (let add = AddSheet spreadsheet_id clean in
                      if is_ok (service 2 add)
                      then (is_ok (service 3 update), [get, get, add, update])
                      else (False, [get, get, add]))
                   else
                     (let clear = ClearValues spreadsheet_id (sheet_range clean ''A:Z'')
                      in (is_ok (service 3 update), [get, get, clear, update]))))"

text \<open>An example service: one sheet, \<open>Orders 2024\<close>, and every call succeeds.\<close>

definition one_sheet_service :: "nat \<Rightarrow> service_call \<Rightarrow> response" where
  "one_sheet_service n c = Ok [''Orders 2024'']"

section \<open>Token check and request signing (\<^verbatim>\<open>config_managers.py\<close>, \<^verbatim>\<open>api_clients.py\<close>)\<close>

text \<open>
  The fields of \<^verbatim>\<open>ShopeeConfigManager\<close>. The identifiers are integers (\<^verbatim>\<open>load_config\<close>
  converts them); an expiry is an instant in seconds, or \<open>None\<close>.
\<close>

record shopee_config =
  partner_id :: int
  partner_key :: string
  shop_id :: int
  code :: string
  access_token :: string
  refresh_token :: string
  token_expiry :: "int option"
  refresh_token_expiry :: "int option"

text \<open>\<^verbatim>\<open>is_token_expired\<close> and \<^verbatim>\<open>is_refresh_token_expired\<close>, at the instant \<open>t\<close>.\<close>

definition is_token_expired :: "shopee_config \<Rightarrow> int \<Rightarrow> bool" where
  "is_token_expired cfg t =
    (case token_expiry cfg of None \<Rightarrow> True
     | Some expiry \<Rightarrow> if access_token cfg = [] then True else t > expiry)"

definition is_refresh_token_expired :: "shopee_config \<Rightarrow> int \<Rightarrow> bool" where
  "is_refresh_token_expired cfg t =
    (case refresh_token_expiry cfg of None \<Rightarrow> True
     | Some expiry \<Rightarrow> if refresh_token cfg = [] then True else t > expiry)"

text \<open>\<^verbatim>\<open>update_token_info\<close> (the write of the configuration file is not part of the model).\<close>

definition update_token_info :: "shopee_config \<Rightarrow> int \<Rightarrow> string \<Rightarrow> string \<Rightarrow> int \<Rightarrow> shopee_config" where
  "update_token_info cfg t new_access_token new_refresh_token expire_in =
    cfg\<lparr>access_token := new_access_token, refresh_token := new_refresh_token,
        token_expiry := Some (t + expire_in), refresh_token_expiry := Some (t + 2592000)\<rparr>"

text \<open>Python's \<^verbatim>\<open>str\<close> of an integer, as the f-strings apply it.\<close>

definition digits :: string where
  "digits = ''0123456789''"

fun str_nat :: "nat \<Rightarrow> string" where
  "str_nat n = (if n < 10 then [digits ! n] else str_nat (n div 10) @ [digits ! (n mod 10)])"

declare str_nat.simps [simp del]

definition str_int :: "int \<Rightarrow> string" where
  "str_int i = (if i < 0 then ''-'' @ str_nat (nat (- i)) else str_nat (nat i))"

text \<open>\<^verbatim>\<open>hexdigest()\<close>: two lower-case hexadecimal digits for each byte of the digest.\<close>

definition hex_digits :: string where
  "hex_digits = ''0123456789abcdef''"

definition hex_byte :: "8 word \<Rightarrow> string" where
  "hex_byte b = [hex_digits ! (unat b div 16), hex_digits ! (unat b mod 16)]"

definition hexdigest :: "8 word list \<Rightarrow> string" where
  "hexdigest digest = concat (map hex_byte digest)"

definition base_url :: string where
  "base_url = ''https://partner.shopeemobile.com''"

definition auth_endpoints :: "string list" where
  "auth_endpoints = [''/api/v2/auth/token/get'', ''/api/v2/auth/access_token/get'']"

text \<open>
  \<^verbatim>\<open>_generate_signature\<close>. The HMAC-SHA256 of the standard library is a parameter: \<open>hmac key
  msg\<close> is the digest of \<open>msg\<close> under \<open>key\<close>. \<open>timestamp\<close> is \<^verbatim>\<open>int(time.time())\<close>.
\<close>

definition generate_signature ::
  "(string \<Rightarrow> string \<Rightarrow> 8 word list) \<Rightarrow> shopee_config \<Rightarrow> int \<Rightarrow> string \<Rightarrow> string \<Rightarrow> int \<times> string" where
  "generate_signature hmac cfg timestamp endpoint extra_string =
    (let base_string = str_int (partner_id cfg) @ endpoint @ str_int timestamp @ extra_string;
         signature = hexdigest (hmac (partner_key cfg) base_string)
     in (timestamp, signature))"

text \<open>
  A request as handed to the HTTP library: \<^verbatim>\<open>requests.get\<close> when the verb asked for is
  \<^verbatim>\<open>"GET"\<close>, \<^verbatim>\<open>requests.post\<close> otherwise. Query parameters are a dictionary of strings.
  The body is the caller's payload or the payload of the token refresh.
\<close>

datatype verb = HttpGet | HttpPost

datatype 'b payload = Refresh string int int | Payload 'b

record 'b http_request =
  verb :: verb
  url :: string
  query :: "string \<rightharpoonup> string"
  headers :: "(string \<times> string) list"
  body :: "'b payload option"

text \<open>
  What the token endpoint answers, as far as \<^verbatim>\<open>refresh_access_token\<close> reads it: whether
  the \<^verbatim>\<open>error\<close> field is truthy, and the fields \<^verbatim>\<open>access_token\<close>, \<^verbatim>\<open>expire_in\<close>,
  \<^verbatim>\<open>refresh_token\<close> when present.
\<close>

record token_response =
  tr_error :: bool
  tr_access_token :: "string option"
  tr_expire_in :: "int option"
  tr_refresh_token :: "string option"

datatype 'r http_response = RequestFailed | NotADict | Dict 'r

text \<open>
  The world of one \<^verbatim>\<open>make_request\<close> call: the instant read by \<^verbatim>\<open>datetime.now()\<close>, the
  value of \<^verbatim>\<open>int(time.time())\<close>, the answer of the network to a request, the answer of
  the token endpoint (\<open>None\<close> when the exchange raises or the answer is empty), and the
  normalisation \<^verbatim>\<open>make_request\<close> applies to a POST payload.
\<close>

record ('b, 'r) world =
  w_now :: int
  w_time :: int
  w_http :: "'b http_request \<Rightarrow> 'r http_response"
  w_http_token :: "'b http_request \<Rightarrow> token_response option"
  w_process_payload :: "'b \<Rightarrow> 'b"

definition content_type :: "string \<Rightarrow> (string \<times> string) list" where
  "content_type meth = (if meth = ''POST'' then [(''Content-Type'', ''application/json'')] else [])"

text \<open>The request that \<^verbatim>\<open>_raw_make_request\<close> sends.\<close>

definition raw_request ::
  "(string \<Rightarrow> string \<Rightarrow> 8 word list) \<Rightarrow> shopee_config \<Rightarrow> int \<Rightarrow> string \<Rightarrow> string
     \<Rightarrow> (string \<rightharpoonup> string) \<Rightarrow> 'b payload option \<Rightarrow> 'b http_request" where
  "raw_request hmac cfg timestamp endpoint meth params payload =
    (let (timestamp, signature) = generate_signature hmac cfg timestamp endpoint [];
         request_params = [''partner_id'' \<mapsto> str_int (partner_id cfg),
                           ''timestamp'' \<mapsto> str_int timestamp, ''sign'' \<mapsto> signature] ++ params
     in \<lparr>verb = (if meth = ''GET'' then HttpGet else HttpPost), url = base_url @ endpoint,
         query = request_params, headers = content_type meth,
         body = (if meth = ''GET'' then None else payload)\<rparr>)"

text \<open>
  \<^verbatim>\<open>refresh_access_token\<close>: success, the configuration afterwards, and the requests sent.
\<close>

definition refresh_access_token ::
  "(string \<Rightarrow> string \<Rightarrow> 8 word list) \<Rightarrow> ('b, 'r) world \<Rightarrow> shopee_config
     \<Rightarrow> bool \<times> shopee_config \<times> 'b http_request list" where
  "refresh_access_token hmac w cfg =
    (let payload = Refresh (refresh_token cfg) (partner_id cfg) (shop_id cfg);
         request = raw_request hmac cfg (w_time w) ''/api/v2/auth/access_token/get'' ''POST''
                     Map.empty (Some payload)
     in case w_http_token w request of
          None \<Rightarrow> (False, cfg, [request])
        | Some response \<Rightarrow>
            if tr_error response then (False, cfg, [request])
            else (case tr_access_token response of
                    None \<Rightarrow> (False, cfg, [request])
                  | Some token \<Rightarrow>
                      let expire_in = (case tr_expire_in response of None \<Rightarrow> 14312 | Some e \<Rightarrow> e);
                          new_refresh_token = (case tr_refresh_token response of
                                                 None \<Rightarrow> refresh_token cfg | Some r \<Rightarrow> r)
                      in (True, update_token_info cfg (w_now w) token new_refresh_token expire_in,
                          [request])))"

text \<open>The part of \<^verbatim>\<open>make_request\<close> that prepares the authenticated request.\<close>

definition extra_string :: "shopee_config \<Rightarrow> string \<Rightarrow> string" where
  "extra_string cfg endpoint =
    (if endpoint \<notin> set auth_endpoints then access_token cfg @ str_int (shop_id cfg) else [])"

definition signed_request ::
  "(string \<Rightarrow> string \<Rightarrow> 8 word list) \<Rightarrow> ('b \<Rightarrow> 'b) \<Rightarrow> shopee_config \<Rightarrow> int \<Rightarrow> string \<Rightarrow> string
     \<Rightarrow> (string \<rightharpoonup> string) \<Rightarrow> 'b option \<Rightarrow> 'b http_request" where
  "signed_request hmac process cfg timestamp endpoint meth params payload =
    (let (timestamp, signature) =
           generate_signature hmac cfg timestamp endpoint (extra_string cfg endpoint);
         request_params = [''partner_id'' \<mapsto> str_int (partner_id cfg),
                           ''timestamp'' \<mapsto> str_int timestamp, ''sign'' \<mapsto> signature];
         request_params =
           (if endpoint \<notin> set auth_endpoints
            then request_params ++ [''access_token'' \<mapsto> access_token cfg,
                                    ''shop_id'' \<mapsto> str_int (shop_id cfg)]
            else request_params);
         request_params = request_params ++ params;
         payload = (if meth = ''POST'' then map_option process payload else payload)
     in \<lparr>verb = (if meth = ''GET'' then HttpGet else HttpPost), url = base_url @ endpoint,
         query = request_params, headers = content_type meth,
         body = (if meth = ''GET'' then None else map_option Payload payload)\<rparr>)"

datatype request_error = RefreshFailed | ReauthRequired | InvalidStructure | RequestError

text \<open>
  \<^verbatim>\<open>ShopeeAPIClient.make_request\<close>: the JSON dictionary or the exception, the configuration
  afterwards, and the requests that went to the network, in order.
\<close>

definition send_request ::
  "(string \<Rightarrow> string \<Rightarrow> 8 word list) \<Rightarrow> ('b, 'r) world \<Rightarrow> shopee_config \<Rightarrow> string \<Rightarrow> string
     \<Rightarrow> (string \<rightharpoonup> string) \<Rightarrow> 'b option \<Rightarrow> 'b http_request list
     \<Rightarrow> (request_error + 'r) \<times> shopee_config \<times> 'b http_request list" where
  "send_request hmac w cfg endpoint meth params payload sent =
    (let request = signed_request hmac (w_process_payload w) cfg (w_time w) endpoint meth params payload
     in case w_http w request of
          RequestFailed \<Rightarrow> (Inl RequestError, cfg, sent @ [request])
        | NotADict \<Rightarrow> (Inl InvalidStructure, cfg, sent @ [request])
        | Dict json_response \<Rightarrow> (Inr json_response, cfg, sent @ [request]))"

definition make_request ::
  "(string \<Rightarrow> string \<Rightarrow> 8 word list) \<Rightarrow> ('b, 'r) world \<Rightarrow> shopee_config \<Rightarrow> string \<Rightarrow> string
     \<Rightarrow> (string \<rightharpoonup> string) \<Rightarrow> 'b option
     \<Rightarrow> (request_error + 'r) \<times> shopee_config \<times> 'b http_request list" where
  "make_request hmac w cfg endpoint meth params payload =
    (if endpoint \<notin> set auth_endpoints \<and> is_token_expired cfg (w_now w) then
       (if \<not> is_refresh_token_expired cfg (w_now w) then
          (case refresh_access_token hmac w cfg of
             (refreshed, cfg', sent) \<Rightarrow>
               if \<not> refreshed then (Inl RefreshFailed, cfg', sent)
               else send_request hmac w cfg' endpoint meth params payload sent)
        else (Inl ReauthRequired, cfg, []))
     else send_request hmac w cfg endpoint meth params payload [])"

text \<open>
  An example: a stand-in for the keyed hash, a configuration whose two tokens ran out at
  instants 100 and 200, one whose access token is good until 5000, and a world at instant
  1000 whose network answers every request with the dictionary \<open>42\<close>.
\<close>

definition toy_hmac :: "string \<Rightarrow> string \<Rightarrow> 8 word list" where
  "toy_hmac key msg = [of_nat (length key), of_nat (length msg), 171]"

definition stale_config :: shopee_config where
  "stale_config = \<lparr>partner_id = 2001, partner_key = ''secret'', shop_id = 77, code = '''',
     access_token = ''old'', refresh_token = ''older'', token_expiry = Some 100,
     refresh_token_expiry = Some 200\<rparr>"

definition fresh_config :: shopee_config where
  "fresh_config = stale_config\<lparr>access_token := ''tok'', token_expiry := Some 5000\<rparr>"

definition example_world :: "(unit, nat) world" where
  "example_world = \<lparr>w_now = 1000, w_time = 1700000000, w_http = (\<lambda>r. Dict 42),
     w_http_token = (\<lambda>r. None), w_process_payload = (\<lambda>p. p)\<rparr>"

section \<open>Windowed wallet fetch (\<^verbatim>\<open>api_clients.py\<close>)\<close>

text \<open>
  A naive \<^verbatim>\<open>datetime\<close> with no microseconds is the number of seconds since
  0001-01-01 00:00:00, computed as Python's \<^verbatim>\<open>datetime\<close> module computes ordinals. The
  constructor raises \<^verbatim>\<open>ValueError\<close> (here \<open>None\<close>) outside years 1 to 9999, months 1 to
  12 and the days of the month. Adding a \<^verbatim>\<open>timedelta\<close> is addition of seconds; the dates
  that \<^verbatim>\<open>get_wallet_transactions\<close> builds stay below the year 9999 limit of the type.
\<close>

definition is_leap :: "int \<Rightarrow> bool" where
  "is_leap year = (year mod 4 = 0 \<and> (year mod 100 \<noteq> 0 \<or> year mod 400 = 0))"

definition days_before_year :: "int \<Rightarrow> int" where
  "days_before_year year = (let y = year - 1 in y * 365 + y div 4 - y div 100 + y div 400)"

definition days_in_month :: "int \<Rightarrow> int \<Rightarrow> int" where
  "days_in_month year month =
    (if month = 2 \<and> is_leap year then 29
     else [31, 28, 31, 30, 31, 30, 31, 31, 30, 31, 30, 31] ! nat (month - 1))"

definition days_before_month :: "int \<Rightarrow> int \<Rightarrow> int" where
  "days_before_month year month =
    [0, 31, 59, 90, 120, 151, 181, 212, 243, 273, 304, 334] ! nat (month - 1)
      + (if month > 2 \<and> is_leap year then 1 else 0)"

definition datetime :: "int \<Rightarrow> int \<Rightarrow> int \<Rightarrow> int option" where
  "datetime year month day =
    (if 1 \<le> year \<and> year \<le> 9999 \<and> 1 \<le> month \<and> month \<le> 12
        \<and> 1 \<le> day \<and> day \<le> days_in_month year month
     then Some ((days_before_year year + days_before_month year month + day - 1) * 86400)
     else None)"

text \<open>
  The date range of \<^verbatim>\<open>get_wallet_transactions\<close>: the first second of the month and the
  last one. \<open>None\<close> when a constructor raises.
\<close>

definition month_range :: "int \<Rightarrow> int \<Rightarrow> (int \<times> int) option" where
  "month_range year month =
    (case datetime year month 1 of
       None \<Rightarrow> None
     | Some first_day \<Rightarrow>
         (case (if month = 12 then datetime (year + 1) 1 1 else datetime year (month + 1) 1) of
            None \<Rightarrow> None
          | Some next_month \<Rightarrow> Some (first_day, next_month - 1)))"

text \<open>
  The fields of a wallet transaction that the fetch reads. \<^verbatim>\<open>create_time\<close>, \<^verbatim>\<open>amount\<close>
  and \<^verbatim>\<open>transaction_type\<close> are read with \<^verbatim>\<open>get\<close> and may be absent; an absent
  \<^verbatim>\<open>order_sn\<close> or \<^verbatim>\<open>description\<close> reads as the empty string.
\<close>

record transaction =
  create_time :: "int option"
  order_sn :: string
  amount :: "rat option"
  transaction_type :: "string option"
  description :: string

type_synonym dedup_key = "int option \<times> string \<times> rat option \<times> string option \<times> string"

text \<open>\<^verbatim>\<open>_get_transaction_key\<close>.\<close>

definition get_transaction_key :: "transaction \<Rightarrow> dedup_key" where
  "get_transaction_key tx =
    (create_time tx, order_sn tx, amount tx, transaction_type tx, take 100 (description tx))"

text \<open>
  The deduplicating \<^verbatim>\<open>for tx in ...\<close> loop, which both \<^verbatim>\<open>_process_date_range\<close> and
  \<^verbatim>\<open>_get_wallet_transactions_chunked\<close> contain: the transactions kept and the set of keys
  seen.
\<close>

fun dedup :: "transaction list \<Rightarrow> dedup_key set \<Rightarrow> transaction list \<Rightarrow> transaction list \<times> dedup_key set" where
  "dedup [] processed unique_transactions = (unique_transactions, processed)"
| "dedup (tx # txs) processed unique_transactions =
    (let tx_key = get_transaction_key tx in
     if tx_key \<notin> processed
     then dedup txs (insert tx_key processed) (unique_transactions @ [tx])
     else dedup txs processed unique_transactions)"

text \<open>The parameters of one request for wallet transactions.\<close>

record wallet_params =
  q_page_no :: nat
  q_page_size :: int
  q_create_time_from :: int
  q_create_time_to :: int
  q_money_flow :: string
  q_transaction_tab_type :: "string option"

text \<open>
  The \<^verbatim>\<open>while has_more\<close> loop of \<^verbatim>\<open>_process_date_range\<close>. It ends only when a request
  fails or a page is empty or shorter than \<^verbatim>\<open>page_size\<close>, so it is a partial function.
  As for the cursor loop, the state also records the pages received.
\<close>

partial_function (option) date_range_loop ::
  "(wallet_params \<Rightarrow> transaction api_result) \<Rightarrow> int \<Rightarrow> int \<Rightarrow> string option \<Rightarrow> int \<Rightarrow> nat
     \<Rightarrow> transaction list \<Rightarrow> dedup_key set \<Rightarrow> transaction list list
     \<Rightarrow> (transaction list \<times> transaction list list) option" where
  "date_range_loop api start_date end_date tab_type page_size page_no transactions
      processed_in_range received =
    (let page_no = page_no + 1;
         params = \<lparr>q_page_no = page_no, q_page_size = min page_size 100,
                   q_create_time_from = start_date, q_create_time_to = end_date,
                   q_money_flow = ''MONEY_IN'', q_transaction_tab_type = tab_type\<rparr>
     in case api params of
          Raised \<Rightarrow> Some (transactions, received)
        | NoResponse \<Rightarrow> Some (transactions, received)
        | Page new_transactions c m \<Rightarrow>
            if new_transactions = [] then Some (transactions, received @ [new_transactions])
            else
              let unique = dedup new_transactions processed_in_range [];
                  transactions = transactions @ fst unique
              in if int (length new_transactions) < page_size
                 then Some (transactions, received @ [new_transactions])
                 else date_range_loop api start_date end_date tab_type page_size page_no
                        transactions (snd unique) (received @ [new_transactions]))"

declare date_range_loop.simps [code]

text \<open>
  \<^verbatim>\<open>_process_date_range\<close>: \<open>None\<close> inside is Python's \<^verbatim>\<open>None\<close>, returned when no
  transaction was collected; otherwise the transaction list of the dictionary.
\<close>

definition process_date_range ::
  "(wallet_params \<Rightarrow> transaction api_result) \<Rightarrow> int \<Rightarrow> int \<Rightarrow> string option \<Rightarrow> int
     \<Rightarrow> (transaction list option \<times> transaction list list) option" where
  "process_date_range api start_date end_date tab_type page_size =
    (case date_range_loop api start_date end_date tab_type page_size 0 [] {} [] of
       None \<Rightarrow> None
     | Some (transactions, received) \<Rightarrow>
         Some (if transactions \<noteq> [] then Some transactions else None, received))"

text \<open>
  The windows of \<^verbatim>\<open>_get_wallet_transactions_chunked\<close>: the pairs
  \<^verbatim>\<open>(current_start, current_end)\<close> that its \<^verbatim>\<open>while current_start <= last_day\<close> loop hands
  to \<^verbatim>\<open>_process_date_range\<close>, in order. They depend on the two dates only, not on what
  the requests return.
\<close>

function wallet_chunks :: "int \<Rightarrow> int \<Rightarrow> (int \<times> int) list" where
  "wallet_chunks current_start last_day =
    (if current_start \<le> last_day then
       (let current_end = current_start + 14 * 86400;
            current_end = (if current_end > last_day then last_day else current_end)
        in (current_start, current_end) # wallet_chunks (current_end + 1) last_day)
     else [])"
  by pat_completeness auto
termination
  by (relation "measure (\<lambda>(current_start, last_day). nat (last_day + 1 - current_start))") auto

declare wallet_chunks.simps [simp del]

text \<open>The body of that loop, run over the windows.\<close>

fun process_chunks ::
  "(wallet_params \<Rightarrow> transaction api_result) \<Rightarrow> string option \<Rightarrow> int \<Rightarrow> (int \<times> int) list
     \<Rightarrow> transaction list \<Rightarrow> dedup_key set \<Rightarrow> transaction list list
     \<Rightarrow> (transaction list \<times> transaction list list) option" where
  "process_chunks api tab_type page_size [] all_transactions processed_transactions received =
    Some (all_transactions, received)"
| "process_chunks api tab_type page_size ((current_start, current_end) # chunks) all_transactions
      processed_transactions received =
    (case process_date_range api current_start current_end tab_type page_size of
       None \<Rightarrow> None
     | Some (chunk_result, pages) \<Rightarrow>
         (case chunk_result of
            None \<Rightarrow> process_chunks api tab_type page_size chunks all_transactions
                      processed_transactions (received @ pages)
          | Some transaction_list \<Rightarrow>
              let new = dedup transaction_list processed_transactions []
              in process_chunks api tab_type page_size chunks (all_transactions @ fst new)
                   (snd new) (received @ pages)))"

text \<open>
  \<^verbatim>\<open>_verify_date_coverage\<close> prints its findings; it raises on a transaction that has no
  \<^verbatim>\<open>create_time\<close>.
\<close>

definition verify_date_coverage_raises :: "transaction list \<Rightarrow> bool" where
  "verify_date_coverage_raises transactions = list_ex (\<lambda>tx. create_time tx = None) transactions"

datatype py_exception = ValueError | KeyError

text \<open>What a wallet fetch returns: Python's \<^verbatim>\<open>None\<close>, or the dictionary with the list.\<close>

datatype wallet_result = PyNone | Response "transaction list"

text \<open>
  \<^verbatim>\<open>_get_wallet_transactions_chunked\<close>: an exception or the value returned, and the pages
  received.
\<close>

definition get_wallet_transactions_chunked ::
  "(wallet_params \<Rightarrow> transaction api_result) \<Rightarrow> int \<Rightarrow> int \<Rightarrow> string option \<Rightarrow> int
     \<Rightarrow> ((py_exception + wallet_result) \<times> transaction list list) option" where
  "get_wallet_transactions_chunked api first_day last_day tab_type page_size =
    (case process_chunks api tab_type page_size (wallet_chunks first_day last_day) [] {} [] of
       None \<Rightarrow> None
     | Some (all_transactions, received) \<Rightarrow>
         if all_transactions \<noteq> [] then
           (if verify_date_coverage_raises all_transactions then Some (Inl KeyError, received)
            else Some (Inr (Response all_transactions), received))
         else Some (Inr PyNone, received))"



text \<open>
  Example servers. The first answers every order-list request with the same single order and
  announces more until the second request. The others are wallets: an empty one, one whose
  only transaction lacks its \<^verbatim>\<open>create_time\<close>, and one that returns the same transaction
  in every window.
\<close>

definition repeating_server :: "unit \<Rightarrow> nat \<Rightarrow> string option \<Rightarrow> string api_result" where
  "repeating_server p n c =
    (if n < 2 then Page [''240401ABC''] (Some ''c1'') True else Page [''240401ABC''] None False)"

definition empty_wallet :: "wallet_params \<Rightarrow> transaction api_result" where
  "empty_wallet q = Page [] None False"



definition boundary_transaction :: transaction where
  "boundary_transaction =
    \<lparr>create_time = Some 63847612800, order_sn = ''A'', amount = Some 5,
     transaction_type = Some ''ESCROW'', description = ''paid''\<rparr>"

definition boundary_wallet :: "wallet_params \<Rightarrow> transaction api_result" where
  "boundary_wallet q = Page [boundary_transaction] None False"

section \<open>Properties of the cursor pagination\<close>

lemma fetch_pages_leaves:
  assumes "exhausted (api p (Suc n) c)"
  shows "\<exists>d r. fetch_pages api p all_data c n rcv = Some (d, Suc n, r)"
  using assms
  by (subst fetch_pages.simps) (auto simp: exhausted_def Let_def split: api_result.splits)

lemma fetch_pages_bounded:
  assumes "\<forall>c. exhausted (api p k c)" and "n < k"
  shows "\<exists>d pc r. fetch_pages api p all_data c n rcv = Some (d, pc, r) \<and> n < pc \<and> pc \<le> k"
  using assms(2)
proof (induction "k - n" arbitrary: n all_data c rcv)
  case 0
  then show ?case by simp
next
  case (Suc m)
  show ?case
  proof (cases "exhausted (api p (Suc n) c)")
    case True
    from fetch_pages_leaves [of api p n c all_data rcv] True Suc.prems show ?thesis
      by (metis Suc_leI lessI)
  next
    case False
    then obtain page_data c' where
      page: "api p (Suc n) c = Page page_data c' True" "page_data \<noteq> []" "truthy c'"
      by (auto simp: exhausted_def split: api_result.splits)
    have "Suc n \<noteq> k"
      using False assms(1) by auto
    with Suc.prems have lt: "Suc n < k" by simp
    from Suc.hyps(2) have "m = k - Suc n" by simp
    from Suc.hyps(1) [OF this lt] obtain d pc r where
      "fetch_pages api p (all_data @ page_data) c' (Suc n) (rcv @ [page_data])
         = Some (d, pc, r)" "Suc n < pc" "pc \<le> k"
      by blast
    then show ?thesis
      using page by (subst fetch_pages.simps) simp
  qed
qed

text \<open>
  C9: a \<open>days\<close> argument above 15 is clamped without any report: the range is the last
  15 days, and the order fetch is the single cursor-paginated fetch over that range.
\<close>

theorem order_time_range_clamped:
  assumes "days > 15"
  shows "get_time_range now days = (now - 15 * 86400, now) \<and>
    get_order_list api now status days =
      fetch_paginated_data api
        \<lparr>o_time_range_field = ''create_time'', o_time_from = now - 15 * 86400, o_time_to = now,
         o_page_size = 100, o_order_status = status, o_response_optional_fields = ''order_status''\<rparr>"
  using assms by (simp add: get_order_list_def get_time_range_def MAX_DAYS_def Let_def)

theorem order_time_range_clamped_witness:
  "get_time_range 1700000000 30 = (1700000000 - 15 * 86400, 1700000000) \<and>
    get_order_list (\<lambda>p n c. Page [o_time_from p] None False) 1700000000 ''READY_TO_SHIP'' 30
      = Some [1698704000]"
proof -
  have h: "(30::int) > 15" by simp
  show ?thesis
    using order_time_range_clamped [OF h, of 1700000000 "\<lambda>p n c. Page [o_time_from p] None False"
        "''READY_TO_SHIP''"]
    by (simp add: fetch_paginated_data_def fetch_pages.simps truthy_def)
qed

text \<open>
  C6: when some request of the run is answered by a response at which the loop leaves
  (an empty page, a missing cursor, \<^verbatim>\<open>more\<close> false, no response, an exception), the fetch
  returns a list, after at most that many requests; and an empty page ends the loop at
  once, whatever cursor and \<^verbatim>\<open>more\<close> flag it carries.
\<close>

theorem cursor_pagination_terminates:
  "(0 < k \<and> (\<forall>c. exhausted (api p k c)) \<longrightarrow>
      (\<exists>d pc r. fetch_pages api p [] None 0 [] = Some (d, pc, r) \<and> pc \<le> k \<and>
         fetch_paginated_data api p = Some d)) \<and>
   (api p (Suc n) c = Page [] cur has_more \<longrightarrow>
      fetch_pages api p all_data c n rcv = Some (all_data, Suc n, rcv @ [[]]))"
proof (intro conjI impI)
  assume "0 < k \<and> (\<forall>c. exhausted (api p k c))"
  with fetch_pages_bounded [of api p k 0 "[]" None "[]"] obtain d pc r where
    "fetch_pages api p [] None 0 [] = Some (d, pc, r)" "pc \<le> k"
    by blast
  then show "\<exists>d pc r. fetch_pages api p [] None 0 [] = Some (d, pc, r) \<and> pc \<le> k \<and>
      fetch_paginated_data api p = Some d"
    by (simp add: fetch_paginated_data_def)
next
  assume "api p (Suc n) c = Page [] cur has_more"
  then show "fetch_pages api p all_data c n rcv = Some (all_data, Suc n, rcv @ [[]])"
    by (subst fetch_pages.simps) simp
qed

theorem cursor_pagination_terminates_witness:
  "(0 < (3::nat) \<and> (\<forall>c. exhausted (three_page_server () 3 c))) \<and>
   (\<exists>d pc r. fetch_pages three_page_server () [] None 0 [] = Some (d, pc, r) \<and> pc \<le> 3 \<and>
      fetch_paginated_data three_page_server () = Some d) \<and>
   fetch_pages three_page_server () [1, 2] (Some ''next'') 2 [[1], [2]]
     = Some ([1, 2], Suc 2, [[1], [2]] @ [[]])"
proof -
  have h1: "0 < (3::nat) \<and> (\<forall>c. exhausted (three_page_server () 3 c))"
    by (simp add: exhausted_def three_page_server_def)
  have h2: "three_page_server () (Suc 2) (Some ''next'') = Page [] (Some ''next'') True"
    by (simp add: three_page_server_def)
  from cursor_pagination_terminates
    [of 3 three_page_server "()" 2 "Some ''next''" "Some ''next''" True "[1, 2]" "[[1], [2]]"] h1 h2
  show ?thesis by blast
qed

section \<open>Properties of the sheet writer\<close>

















section \<open>Properties of the worksheet upload\<close>

lemma fold_replace_invalid:
  "fold replace_char invalid_chars name = filter (\<lambda>c. c \<notin> set invalid_chars) name"
  by (auto simp: invalid_chars_def replace_char_def intro: filter_cong)

lemma set_strip_subset: "set (strip s) \<subseteq> set s"
proof -
  have "set (strip s) \<subseteq> set (rev (dropWhile is_space s))"
    unfolding strip_def by (metis set_dropWhileD set_rev subsetI)
  also have "\<dots> \<subseteq> set s"
    by (metis set_dropWhileD set_rev subsetI)
  finally show ?thesis .
qed

lemma clean_sheet_name_length: "length (clean_sheet_name name) \<le> 31"
  by (simp add: clean_sheet_name_def)

lemma clean_sheet_name_chars:
  assumes "c \<in> set (clean_sheet_name name)"
  shows "c \<in> set name \<and> c \<notin> set invalid_chars"
proof -
  from assms have "c \<in> set (strip (fold replace_char invalid_chars name))"
    unfolding clean_sheet_name_def by (rule in_set_takeD)
  with set_strip_subset have "c \<in> set (fold replace_char invalid_chars name)"
    by blast
  then show ?thesis
    by (simp add: fold_replace_invalid)
qed

text \<open>
  C8: the upload works on the sanitized name. The sanitized name is the requested name
  without the characters \<open>: / ? * [ ]\<close>, then stripped of surrounding whitespace, then cut
  to its first 31 characters; and every call of the upload that names a worksheet (the
  creation, the clearing, the write) names the sanitized one, the lookup among the existing
  titles being made with it as well.
\<close>

theorem upload_uses_clean_sheet_name:
  "clean_sheet_name name = take 31 (strip (filter (\<lambda>c. c \<notin> set '':/?*[]'') name)) \<and>
   length (clean_sheet_name name) \<le> 31 \<and>
   (\<forall>c \<in> set (clean_sheet_name name). c \<notin> set '':/?*[]'') \<and>
   (\<forall>call \<in> set (snd (upload_to_sheet auth service sid name data)).
      call = GetSpreadsheet sid \<or>
      call = AddSheet sid (clean_sheet_name name) \<or>
      call = ClearValues sid (sheet_range (clean_sheet_name name) ''A:Z'') \<or>
      call = UpdateValues sid (sheet_range (clean_sheet_name name) ''A1'') data) \<and>
   (auth \<and> service 0 (GetSpreadsheet sid) = Ok sp \<and> service 1 (GetSpreadsheet sid) = Ok sheets \<longrightarrow>
      (AddSheet sid (clean_sheet_name name) \<in> set (snd (upload_to_sheet auth service sid name data))
         \<longleftrightarrow> clean_sheet_name name \<notin> set sheets) \<and>
      (ClearValues sid (sheet_range (clean_sheet_name name) ''A:Z'')
         \<in> set (snd (upload_to_sheet auth service sid name data))
         \<longleftrightarrow> clean_sheet_name name \<in> set sheets))"
proof (intro conjI ballI impI)
  show "clean_sheet_name name = take 31 (strip (filter (\<lambda>c. c \<notin> set '':/?*[]'') name))"
    using fold_replace_invalid [of name] by (simp add: clean_sheet_name_def invalid_chars_def)
  show "length (clean_sheet_name name) \<le> 31"
    by (rule clean_sheet_name_length)
  show "c \<notin> set '':/?*[]''" if "c \<in> set (clean_sheet_name name)" for c
    using clean_sheet_name_chars [OF that] by (simp add: invalid_chars_def)
  show "call = GetSpreadsheet sid \<or>
      call = AddSheet sid (clean_sheet_name name) \<or>
      call = ClearValues sid (sheet_range (clean_sheet_name name) ''A:Z'') \<or>
      call = UpdateValues sid (sheet_range (clean_sheet_name name) ''A1'') data"
    if "call \<in> set (snd (upload_to_sheet auth service sid name data))" for call
    using that
    by (auto simp: upload_to_sheet_def Let_def split: if_splits response.splits)
next
  assume a: "auth \<and> service 0 (GetSpreadsheet sid) = Ok sp \<and> service 1 (GetSpreadsheet sid) = Ok sheets"
  then show "(AddSheet sid (clean_sheet_name name) \<in> set (snd (upload_to_sheet auth service sid name data)))
         = (clean_sheet_name name \<notin> set sheets)"
    by (simp add: upload_to_sheet_def Let_def)
  from a show "(ClearValues sid (sheet_range (clean_sheet_name name) ''A:Z'')
         \<in> set (snd (upload_to_sheet auth service sid name data)))
         = (clean_sheet_name name \<in> set sheets)"
    by (simp add: upload_to_sheet_def Let_def)
qed

lemma clean_sheet_name_example:
  "clean_sheet_name ''  Orders: 2024/[Q1]?  '' = ''Orders 2024Q1''"
  by (simp add: clean_sheet_name_def invalid_chars_def replace_char_def strip_def is_space_def)

theorem upload_uses_clean_sheet_name_witness:
  "clean_sheet_name '' Orders 2024*'' = ''Orders 2024'' \<and>
   CHR ''O'' \<in> set (clean_sheet_name '' Orders 2024*'') \<and> CHR ''O'' \<notin> set '':/?*[]'' \<and>
   upload_to_sheet True one_sheet_service ''sid'' '' Orders 2024*'' [[''a'']] =
     (True, [GetSpreadsheet ''sid'', GetSpreadsheet ''sid'',
             ClearValues ''sid'' (sheet_range ''Orders 2024'' ''A:Z''),
             UpdateValues ''sid'' (sheet_range ''Orders 2024'' ''A1'') [[''a'']]]) \<and>
   ClearValues ''sid'' (sheet_range (clean_sheet_name '' Orders 2024*'') ''A:Z'')
     \<in> set (snd (upload_to_sheet True one_sheet_service ''sid'' '' Orders 2024*'' [[''a'']]))"
proof -
  have c: "clean_sheet_name '' Orders 2024*'' = ''Orders 2024''"
    by (simp add: clean_sheet_name_def invalid_chars_def replace_char_def strip_def is_space_def)
  have s: "True \<and> one_sheet_service 0 (GetSpreadsheet ''sid'') = Ok [''Orders 2024'']
     \<and> one_sheet_service 1 (GetSpreadsheet ''sid'') = Ok [''Orders 2024'']"
    by (simp add: one_sheet_service_def)
  have u: "upload_to_sheet True one_sheet_service ''sid'' '' Orders 2024*'' [[''a'']] =
     (True, [GetSpreadsheet ''sid'', GetSpreadsheet ''sid'',
             ClearValues ''sid'' (sheet_range ''Orders 2024'' ''A:Z''),
             UpdateValues ''sid'' (sheet_range ''Orders 2024'' ''A1'') [[''a'']]])"
    by (simp add: upload_to_sheet_def c one_sheet_service_def is_ok_def Let_def)
  from upload_uses_clean_sheet_name
    [of "'' Orders 2024*''" True one_sheet_service "''sid''" "[[''a'']]" "[''Orders 2024'']" "[''Orders 2024'']"]
    s c u
  show ?thesis by simp
qed

section \<open>Properties of the token check and the signature\<close>

lemma hex_byte_lower: "set (hex_byte b) \<subseteq> set hex_digits"
proof -
  have "unat b < 2 ^ LENGTH(8)"
    by (rule unsigned_less)
  then have "unat b < 256"
    by simp
  then have "unat b div 16 < 16" and "unat b mod 16 < 16"
    by simp_all
  then have "unat b div 16 < length hex_digits" and "unat b mod 16 < length hex_digits"
    by (simp_all add: hex_digits_def)
  then show ?thesis
    by (simp add: hex_byte_def)
qed

lemma hexdigest_lower: "set (hexdigest digest) \<subseteq> set hex_digits"
  using hex_byte_lower by (auto simp: hexdigest_def)

lemma hexdigest_length: "length (hexdigest digest) = 2 * length digest"
  by (induction digest) (simp_all add: hexdigest_def hex_byte_def)

lemma signed_request_sign:
  assumes "params ''sign'' = None"
  shows "query (signed_request hmac process cfg timestamp endpoint meth params payload) ''sign''
    = Some (snd (generate_signature hmac cfg timestamp endpoint (extra_string cfg endpoint)))"
  using assms
  by (simp add: signed_request_def generate_signature_def Let_def map_add_def)

lemma send_request_sent:
  "snd (snd (send_request hmac w cfg endpoint meth params payload sent)) =
     sent @ [signed_request hmac (w_process_payload w) cfg (w_time w) endpoint meth params payload]
   \<and> fst (snd (send_request hmac w cfg endpoint meth params payload sent)) = cfg"
  by (simp add: send_request_def Let_def split: http_response.split)

text \<open>
  C4: for an endpoint other than the two bootstrap ones, when the access-token expiry is in
  the past and the refresh-token expiry is in the past too (or there is no refresh token),
  \<^verbatim>\<open>make_request\<close> ends with the re-authentication error, has sent nothing to the network
  and leaves the configuration as it was; there is no second attempt in it.
\<close>

theorem expired_tokens_need_reauth:
  assumes "endpoint \<notin> set auth_endpoints"
    and "token_expiry cfg = Some access_expiry" and "access_expiry < w_now w"
    and "(refresh_token_expiry cfg = Some refresh_expiry \<and> refresh_expiry < w_now w)
         \<or> refresh_token cfg = []"
  shows "make_request hmac w cfg endpoint meth params payload = (Inl ReauthRequired, cfg, [])"
proof -
  have "is_token_expired cfg (w_now w)"
    using assms(2,3) by (simp add: is_token_expired_def)
  moreover have "is_refresh_token_expired cfg (w_now w)"
    using assms(4) by (auto simp: is_refresh_token_expired_def split: option.split)
  ultimately show ?thesis
    using assms(1) by (simp add: make_request_def)
qed

theorem expired_tokens_need_reauth_witness:
  "''/api/v2/order/get_order_list'' \<notin> set auth_endpoints \<and>
   token_expiry stale_config = Some 100 \<and> 100 < w_now example_world \<and>
   refresh_token_expiry stale_config = Some 200 \<and> 200 < w_now example_world \<and>
   make_request toy_hmac example_world stale_config ''/api/v2/order/get_order_list'' ''GET''
     Map.empty None = (Inl ReauthRequired, stale_config, [])"
proof -
  have h1: "''/api/v2/order/get_order_list'' \<notin> set auth_endpoints"
    by (simp add: auth_endpoints_def)
  have h2: "token_expiry stale_config = Some 100" and h3: "100 < w_now example_world"
    and h4: "refresh_token_expiry stale_config = Some 200" and h5: "200 < w_now example_world"
    by (simp_all add: stale_config_def example_world_def)
  from h4 h5 have h6: "(refresh_token_expiry stale_config = Some 200 \<and> 200 < w_now example_world)
         \<or> refresh_token stale_config = []"
    by simp
  from expired_tokens_need_reauth [OF h1 h2 h3 h6, of toy_hmac "''GET''" Map.empty None]
    h1 h2 h3 h4 h5
  show ?thesis by simp
qed

text \<open>
  C7: the signature is the lower-case hexadecimal digest, under the partner key, of
  partner id, endpoint and timestamp followed by access token and shop id, the last two
  being left out for the two bootstrap endpoints. It is the \<^verbatim>\<open>sign\<close> parameter of the
  request, unless the caller's own parameters replace it, and whenever \<^verbatim>\<open>make_request\<close>
  gets as far as the network, the last request it sent is the one signed in this way for the
  configuration then in force.
\<close>

theorem request_signature:
  "(endpoint \<notin> set auth_endpoints \<longrightarrow>
      snd (generate_signature hmac cfg timestamp endpoint (extra_string cfg endpoint)) =
        hexdigest (hmac (partner_key cfg)
          (str_int (partner_id cfg) @ endpoint @ str_int timestamp
             @ access_token cfg @ str_int (shop_id cfg)))) \<and>
   (endpoint \<in> set auth_endpoints \<longrightarrow>
      snd (generate_signature hmac cfg timestamp endpoint (extra_string cfg endpoint)) =
        hexdigest (hmac (partner_key cfg)
          (str_int (partner_id cfg) @ endpoint @ str_int timestamp))) \<and>
   auth_endpoints = [''/api/v2/auth/token/get'', ''/api/v2/auth/access_token/get''] \<and>
   (\<forall>c \<in> set (snd (generate_signature hmac cfg timestamp endpoint (extra_string cfg endpoint))).
      c \<in> set ''0123456789abcdef'') \<and>
   (params ''sign'' = None \<longrightarrow>
      query (signed_request hmac process cfg timestamp endpoint meth params payload) ''sign''
        = Some (snd (generate_signature hmac cfg timestamp endpoint (extra_string cfg endpoint)))) \<and>
   (make_request hmac w cfg endpoint meth params payload = (result, cfg', sent) \<and>
    result \<noteq> Inl ReauthRequired \<and> result \<noteq> Inl RefreshFailed \<longrightarrow>
      sent \<noteq> [] \<and>
      last sent = signed_request hmac (w_process_payload w) cfg' (w_time w) endpoint meth params payload)"
proof (intro conjI impI ballI)
  show "auth_endpoints = [''/api/v2/auth/token/get'', ''/api/v2/auth/access_token/get'']"
    by (simp add: auth_endpoints_def)
  show "snd (generate_signature hmac cfg timestamp endpoint (extra_string cfg endpoint)) =
        hexdigest (hmac (partner_key cfg)
          (str_int (partner_id cfg) @ endpoint @ str_int timestamp
             @ access_token cfg @ str_int (shop_id cfg)))"
    if "endpoint \<notin> set auth_endpoints"
    using that by (simp add: generate_signature_def extra_string_def Let_def)
  show "snd (generate_signature hmac cfg timestamp endpoint (extra_string cfg endpoint)) =
        hexdigest (hmac (partner_key cfg)
          (str_int (partner_id cfg) @ endpoint @ str_int timestamp))"
    if "endpoint \<in> set auth_endpoints"
    using that by (simp add: generate_signature_def extra_string_def Let_def)
  show "c \<in> set ''0123456789abcdef''"
    if "c \<in> set (snd (generate_signature hmac cfg timestamp endpoint (extra_string cfg endpoint)))"
    for c
  proof -
    from that have "c \<in> set (hexdigest (hmac (partner_key cfg)
        (str_int (partner_id cfg) @ endpoint @ str_int timestamp @ extra_string cfg endpoint)))"
      by (simp add: generate_signature_def Let_def)
    with hexdigest_lower have "c \<in> set hex_digits" by blast
    then show ?thesis by (simp only: hex_digits_def)
  qed
  show "query (signed_request hmac process cfg timestamp endpoint meth params payload) ''sign''
        = Some (snd (generate_signature hmac cfg timestamp endpoint (extra_string cfg endpoint)))"
    if "params ''sign'' = None"
    using that by (rule signed_request_sign)
next
  assume a: "make_request hmac w cfg endpoint meth params payload = (result, cfg', sent) \<and>
    result \<noteq> Inl ReauthRequired \<and> result \<noteq> Inl RefreshFailed"
  let ?req = "\<lambda>c. signed_request hmac (w_process_payload w) c (w_time w) endpoint meth params payload"
  have "sent \<noteq> [] \<and> last sent = ?req cfg'"
  proof (cases "endpoint \<notin> set auth_endpoints \<and> is_token_expired cfg (w_now w)")
    case False
    then have "make_request hmac w cfg endpoint meth params payload =
        send_request hmac w cfg endpoint meth params payload []"
      by (auto simp: make_request_def)
    with a send_request_sent [of hmac w cfg endpoint meth params payload "[]"]
    show ?thesis by auto
  next
    case True
    show ?thesis
    proof (cases "is_refresh_token_expired cfg (w_now w)")
      case True
      with \<open>endpoint \<notin> set auth_endpoints \<and> is_token_expired cfg (w_now w)\<close> a
      show ?thesis by (auto simp: make_request_def)
    next
      case False
      obtain refreshed cfg1 sent1 where
        r: "refresh_access_token hmac w cfg = (refreshed, cfg1, sent1)"
        by (cases "refresh_access_token hmac w cfg") auto
      show ?thesis
      proof (cases refreshed)
        case False
        with r \<open>\<not> is_refresh_token_expired cfg (w_now w)\<close>
          \<open>endpoint \<notin> set auth_endpoints \<and> is_token_expired cfg (w_now w)\<close> a
        show ?thesis by (auto simp: make_request_def)
      next
        case True
        with r \<open>\<not> is_refresh_token_expired cfg (w_now w)\<close>
          \<open>endpoint \<notin> set auth_endpoints \<and> is_token_expired cfg (w_now w)\<close>
        have "make_request hmac w cfg endpoint meth params payload =
            send_request hmac w cfg1 endpoint meth params payload sent1"
          by (simp add: make_request_def)
        with a send_request_sent [of hmac w cfg1 endpoint meth params payload sent1]
        show ?thesis by auto
      qed
    qed
  qed
  then show "sent \<noteq> []" and "last sent = ?req cfg'"
    by simp_all
qed

lemma example_signature:
  "snd (generate_signature toy_hmac fresh_config 1700000000 ''/api/v2/order/get_order_list''
     (extra_string fresh_config ''/api/v2/order/get_order_list'')) = ''062fab''"
  by (simp add: generate_signature_def extra_string_def auth_endpoints_def fresh_config_def
      stale_config_def toy_hmac_def hexdigest_def hex_byte_def hex_digits_def str_int_def
      str_nat.simps digits_def)

theorem request_signature_witness:
  "''/api/v2/order/get_order_list'' \<notin> set auth_endpoints \<and>
   snd (generate_signature toy_hmac fresh_config 1700000000 ''/api/v2/order/get_order_list''
     (extra_string fresh_config ''/api/v2/order/get_order_list'')) = ''062fab'' \<and>
   hexdigest (toy_hmac (partner_key fresh_config)
     (str_int (partner_id fresh_config) @ ''/api/v2/order/get_order_list'' @ str_int 1700000000
        @ access_token fresh_config @ str_int (shop_id fresh_config))) = ''062fab'' \<and>
   ''/api/v2/auth/token/get'' \<in> set auth_endpoints \<and>
   snd (generate_signature toy_hmac fresh_config 1700000000 ''/api/v2/auth/token/get''
     (extra_string fresh_config ''/api/v2/auth/token/get'')) =
     hexdigest (toy_hmac ''secret'' ''2001/api/v2/auth/token/get1700000000'') \<and>
   CHR ''f'' \<in> set (snd (generate_signature toy_hmac fresh_config 1700000000
     ''/api/v2/order/get_order_list'' (extra_string fresh_config ''/api/v2/order/get_order_list''))) \<and>
   query (signed_request toy_hmac (\<lambda>p. p) fresh_config 1700000000 ''/api/v2/order/get_order_list''
     ''GET'' Map.empty (None :: unit option)) ''sign'' = Some ''062fab'' \<and>
   make_request toy_hmac example_world fresh_config ''/api/v2/order/get_order_list'' ''GET''
     Map.empty None =
     (Inr 42, fresh_config,
      [signed_request toy_hmac (\<lambda>p. p) fresh_config 1700000000 ''/api/v2/order/get_order_list''
         ''GET'' Map.empty None])"
proof -
  let ?e = "''/api/v2/order/get_order_list''"
  let ?b = "''/api/v2/auth/token/get''"
  let ?r = "signed_request toy_hmac (\<lambda>p. p) fresh_config 1700000000 ?e ''GET'' Map.empty
              (None :: unit option)"
  have h1: "?e \<notin> set auth_endpoints" and h2: "?b \<in> set auth_endpoints"
    by (simp_all add: auth_endpoints_def)
  have h3: "(Map.empty :: string \<rightharpoonup> string) ''sign'' = None"
    by simp
  have m: "make_request toy_hmac example_world fresh_config ?e ''GET'' Map.empty None =
      (Inr 42, fresh_config, [?r])"
    by (simp add: make_request_def send_request_def example_world_def fresh_config_def
        stale_config_def is_token_expired_def)
  have h4: "make_request toy_hmac example_world fresh_config ?e ''GET'' Map.empty None =
      (Inr 42, fresh_config, [?r]) \<and>
      (Inr 42 :: request_error + nat) \<noteq> Inl ReauthRequired \<and>
      (Inr 42 :: request_error + nat) \<noteq> Inl RefreshFailed"
    using m by simp
  have k: "partner_key fresh_config = ''secret''" "str_int (partner_id fresh_config) = ''2001''"
    "str_int 1700000000 = ''1700000000''"
    by (simp_all add: fresh_config_def stale_config_def str_int_def str_nat.simps digits_def)
  note t1 = request_signature [of ?e toy_hmac fresh_config 1700000000 Map.empty "\<lambda>p. p" "''GET''"
      "None :: unit option" example_world "Inr 42" fresh_config "[?r]"]
  note t2 = request_signature [of ?b toy_hmac fresh_config 1700000000 Map.empty "\<lambda>p. p" "''GET''"
      "None :: unit option" example_world "Inr 42" fresh_config "[?r]"]
  let ?sig = "snd (generate_signature toy_hmac fresh_config 1700000000 ?e
     (extra_string fresh_config ?e))"
  from t1 h1 have a0: "?sig = hexdigest (toy_hmac (partner_key fresh_config)
     (str_int (partner_id fresh_config) @ ?e @ str_int 1700000000
        @ access_token fresh_config @ str_int (shop_id fresh_config)))"
    by blast
  have a: "hexdigest (toy_hmac (partner_key fresh_config)
     (str_int (partner_id fresh_config) @ ?e @ str_int 1700000000
        @ access_token fresh_config @ str_int (shop_id fresh_config))) = ''062fab''"
    unfolding a0 [symmetric] by (rule example_signature)
  from t1 h3 have b0: "query ?r ''sign'' = Some ?sig"
    by blast
  have b: "query ?r ''sign'' = Some ''062fab''"
    unfolding b0 example_signature by (rule refl)
  from t2 h2 have c0: "snd (generate_signature toy_hmac fresh_config 1700000000 ?b
     (extra_string fresh_config ?b)) =
     hexdigest (toy_hmac (partner_key fresh_config)
       (str_int (partner_id fresh_config) @ ?b @ str_int 1700000000))"
    by blast
  have c: "snd (generate_signature toy_hmac fresh_config 1700000000 ?b
     (extra_string fresh_config ?b)) =
     hexdigest (toy_hmac ''secret'' ''2001/api/v2/auth/token/get1700000000'')"
    unfolding c0 k by simp
  have d: "CHR ''f'' \<in> set ?sig"
    unfolding example_signature by simp
  from h1 example_signature a h2 c d b m show ?thesis
    by (intro conjI)
qed

section \<open>Properties of the windowed wallet fetch\<close>

lemma dedup_result:
  "\<exists>new. dedup txs processed unique
      = (unique @ new, processed \<union> get_transaction_key ` set txs) \<and>
     distinct (map get_transaction_key new) \<and>
     get_transaction_key ` set new = get_transaction_key ` set txs - processed"
proof (induction txs arbitrary: processed unique)
  case Nil
  then show ?case by simp
next
  case (Cons tx txs)
  show ?case
  proof (cases "get_transaction_key tx \<in> processed")
    case True
    from Cons.IH [of processed unique] obtain new where
      "dedup txs processed unique = (unique @ new, processed \<union> get_transaction_key ` set txs)"
      "distinct (map get_transaction_key new)"
      "get_transaction_key ` set new = get_transaction_key ` set txs - processed"
      by blast
    with True show ?thesis
      by (intro exI [of _ new]) auto
  next
    case False
    from Cons.IH [of "insert (get_transaction_key tx) processed" "unique @ [tx]"] obtain new where
      n: "dedup txs (insert (get_transaction_key tx) processed) (unique @ [tx])
        = ((unique @ [tx]) @ new,
           insert (get_transaction_key tx) processed \<union> get_transaction_key ` set txs)"
      "distinct (map get_transaction_key new)"
      "get_transaction_key ` set new
        = get_transaction_key ` set txs - insert (get_transaction_key tx) processed"
      by blast
    from n(3) have "get_transaction_key tx \<notin> get_transaction_key ` set new"
      by blast
    with False n show ?thesis
      by (intro exI [of _ "tx # new"]) auto
  qed
qed

lemma dedup_step:
  assumes "processed = get_transaction_key ` set kept"
    and "distinct (map get_transaction_key kept)"
  shows "distinct (map get_transaction_key (kept @ fst (dedup txs processed []))) \<and>
    snd (dedup txs processed []) = get_transaction_key ` set (kept @ fst (dedup txs processed [])) \<and>
    get_transaction_key ` set (kept @ fst (dedup txs processed []))
      = get_transaction_key ` set kept \<union> get_transaction_key ` set txs"
proof -
  from dedup_result [of txs processed "[]"] obtain new where
    n: "dedup txs processed [] = (new, processed \<union> get_transaction_key ` set txs)"
    "distinct (map get_transaction_key new)"
    "get_transaction_key ` set new = get_transaction_key ` set txs - processed"
    by auto
  have "get_transaction_key ` set kept \<inter> get_transaction_key ` set new = {}"
    using n(3) assms(1) by blast
  then have "distinct (map get_transaction_key (kept @ new))"
    using assms(2) n(2) by simp
  moreover have "get_transaction_key ` set (kept @ new)
      = get_transaction_key ` set kept \<union> get_transaction_key ` set txs"
    using n(3) assms(1) by (auto simp: image_Un)
  ultimately show ?thesis
    using n(1) assms(1) by (simp add: image_Un)
qed

lemma date_range_loop_invariant:
  "date_range_loop api start_date end_date tab_type page_size page_no kept processed received = Some y \<Longrightarrow>
   processed = get_transaction_key ` set kept \<Longrightarrow>
   distinct (map get_transaction_key kept) \<Longrightarrow>
   get_transaction_key ` set kept = get_transaction_key ` set (concat received) \<Longrightarrow>
   distinct (map get_transaction_key (fst y)) \<and>
   get_transaction_key ` set (fst y) = get_transaction_key ` set (concat (snd y))"
proof (induction rule: date_range_loop.raw_induct [rotated 1, consumes 1, case_names step])
  case (step loop api start_date end_date tab_type page_size page_no kept processed received y)
  let ?q = "\<lparr>q_page_no = page_no + 1, q_page_size = min page_size 100,
              q_create_time_from = start_date, q_create_time_to = end_date,
              q_money_flow = ''MONEY_IN'', q_transaction_tab_type = tab_type\<rparr>"
  show ?case
  proof (cases "api ?q")
    case Raised
    with step.hyps have "y = (kept, received)" by (auto simp: Let_def)
    with step.prems show ?thesis by simp
  next
    case NoResponse
    with step.hyps have "y = (kept, received)" by (auto simp: Let_def)
    with step.prems show ?thesis by simp
  next
    case (Page new c m)
    show ?thesis
    proof (cases "new = []")
      case True
      with Page step.hyps have "y = (kept, received @ [[]])" by (auto simp: Let_def)
      with step.prems show ?thesis by simp
    next
      case False
      let ?d = "dedup new processed []"
      let ?kept = "kept @ fst ?d"
      from dedup_step [OF step.prems(1,2), of new] have
        d: "distinct (map get_transaction_key ?kept)"
        "snd ?d = get_transaction_key ` set ?kept"
        "get_transaction_key ` set ?kept
           = get_transaction_key ` set kept \<union> get_transaction_key ` set new"
        by blast+
      have r: "get_transaction_key ` set ?kept
          = get_transaction_key ` set (concat (received @ [new]))"
        using d(3) step.prems(3) by (simp add: image_Un)
      show ?thesis
      proof (cases "int (length new) < page_size")
        case True
        with Page False step.hyps have "y = (?kept, received @ [new])"
          by (auto simp: Let_def)
        with d(1) r show ?thesis by simp
      next
        case short: False
        with Page False step.hyps have
          "loop api start_date end_date tab_type page_size (page_no + 1) ?kept (snd ?d)
             (received @ [new]) = Some y"
          by (simp add: Let_def)
        from step.IH [OF this d(2) d(1) r] show ?thesis .
      qed
    qed
  qed
qed

lemma process_date_range_result:
  assumes "process_date_range api start_date end_date tab_type page_size = Some (chunk_result, pages)"
  shows "case chunk_result of
      None \<Rightarrow> get_transaction_key ` set (concat pages) = {}
    | Some transaction_list \<Rightarrow> transaction_list \<noteq> [] \<and>
        distinct (map get_transaction_key transaction_list) \<and>
        get_transaction_key ` set transaction_list = get_transaction_key ` set (concat pages)"
proof -
  from assms obtain t where
    l: "date_range_loop api start_date end_date tab_type page_size 0 [] {} [] = Some (t, pages)"
    and c: "chunk_result = (if t \<noteq> [] then Some t else None)"
    by (auto simp: process_date_range_def split: option.splits)
  from date_range_loop_invariant [OF l] have
    "distinct (map get_transaction_key t)"
    "get_transaction_key ` set t = get_transaction_key ` set (concat pages)"
    by simp_all
  with c show ?thesis by (cases "t = []") auto
qed

lemma process_chunks_invariant:
  assumes "process_chunks api tab_type page_size chunks kept processed received = Some (t, r)"
    and "processed = get_transaction_key ` set kept"
    and "distinct (map get_transaction_key kept)"
    and "get_transaction_key ` set kept = get_transaction_key ` set (concat received)"
  shows "distinct (map get_transaction_key t) \<and>
    get_transaction_key ` set t = get_transaction_key ` set (concat r)"
  using assms
proof (induction chunks arbitrary: kept processed received)
  case Nil
  then show ?case by simp
next
  case (Cons chunk chunks)
  obtain current_start current_end where chunk: "chunk = (current_start, current_end)"
    by (cases chunk) auto
  let ?range = "process_date_range api current_start current_end tab_type page_size"
  from Cons.prems(1) have "?range \<noteq> None"
    unfolding chunk by (cases ?range) simp_all
  then obtain chunk_result pages where p: "?range = Some (chunk_result, pages)"
    by (cases ?range) auto
  note res = process_date_range_result [OF p]
  show ?case
  proof (cases chunk_result)
    case None
    with res have e: "get_transaction_key ` set (concat pages) = {}" by simp
    have run: "process_chunks api tab_type page_size chunks kept processed (received @ pages)
        = Some (t, r)"
      using Cons.prems(1) unfolding chunk by (simp add: p None)
    have keys: "get_transaction_key ` set kept
        = get_transaction_key ` set (concat (received @ pages))"
      unfolding concat_append set_append image_Un e using Cons.prems(4) by simp
    from Cons.IH [OF run Cons.prems(2) Cons.prems(3) keys] show ?thesis .
  next
    case (Some transaction_list)
    with res have tl: "get_transaction_key ` set transaction_list
        = get_transaction_key ` set (concat pages)"
      by simp
    let ?d = "dedup transaction_list processed []"
    from dedup_step [OF Cons.prems(2,3), of transaction_list] have
      d: "distinct (map get_transaction_key (kept @ fst ?d))"
      "snd ?d = get_transaction_key ` set (kept @ fst ?d)"
      "get_transaction_key ` set (kept @ fst ?d)
         = get_transaction_key ` set kept \<union> get_transaction_key ` set transaction_list"
      by blast+
    have run: "process_chunks api tab_type page_size chunks (kept @ fst ?d) (snd ?d)
        (received @ pages) = Some (t, r)"
      using Cons.prems(1) unfolding chunk by (simp add: p Some Let_def)
    have "get_transaction_key ` set (kept @ fst ?d)
        = get_transaction_key ` set kept \<union> get_transaction_key ` set transaction_list"
      by (rule d(3))
    also have "\<dots> = get_transaction_key ` set (concat received)
        \<union> get_transaction_key ` set (concat pages)"
      by (simp only: tl Cons.prems(4))
    also have "\<dots> = get_transaction_key ` set (concat (received @ pages))"
      by (simp add: image_Un)
    finally have keys: "get_transaction_key ` set (kept @ fst ?d)
        = get_transaction_key ` set (concat (received @ pages))" .
    from Cons.IH [OF run d(2) d(1) keys] show ?thesis .
  qed
qed

lemma fetch_pages_concat:
  "fetch_pages api p all_data c n received = Some y \<Longrightarrow> all_data = concat received \<Longrightarrow>
   fst y = concat (snd (snd y))"
proof (induction rule: fetch_pages.raw_induct [rotated 1, consumes 1, case_names step])
  case (step loop api p all_data c n received y)
  show ?case
  proof (cases "api p (n + 1) c")
    case Raised
    with step.hyps step.prems show ?thesis by (auto simp: Let_def)
  next
    case NoResponse
    with step.hyps step.prems show ?thesis by (auto simp: Let_def)
  next
    case (Page page_data c' has_more)
    show ?thesis
    proof (cases "page_data = [] \<or> \<not> has_more \<or> \<not> truthy c'")
      case True
      with Page step.hyps step.prems show ?thesis by (auto simp: Let_def split: if_splits)
    next
      case False
      with Page step.hyps have
        "loop api p (all_data @ page_data) c' (n + 1) (received @ [page_data]) = Some y"
        by (simp add: Let_def)
      from step.IH [OF this] step.prems show ?thesis by simp
    qed
  qed
qed




lemma chunked_response_keys:
  assumes "get_wallet_transactions_chunked api first_day last_day tab_type page_size
      = Some (Inr (Response txs), received)"
  shows "distinct (map get_transaction_key txs) \<and>
      get_transaction_key ` set txs = get_transaction_key ` set (concat received) \<and>
      length txs = card (get_transaction_key ` set (concat received))"
proof -
  from assms have run:
    "process_chunks api tab_type page_size (wallet_chunks first_day last_day) [] {} []
      = Some (txs, received)"
    by (auto simp: get_wallet_transactions_chunked_def split: option.splits if_splits)
  from process_chunks_invariant [OF run] have
    d: "distinct (map get_transaction_key txs)" and
    k: "get_transaction_key ` set txs = get_transaction_key ` set (concat received)"
    by simp_all
  have "length txs = length (map get_transaction_key txs)" by simp
  also have "\<dots> = card (set (map get_transaction_key txs))"
    using d by (rule distinct_card [symmetric])
  also have "\<dots> = card (get_transaction_key ` set (concat received))"
    using k by simp
  finally have "length txs = card (get_transaction_key ` set (concat received))" .
  with d k show ?thesis by simp
qed

lemma chunked_none_pages:
  assumes "get_wallet_transactions_chunked api first_day last_day tab_type page_size
      = Some (Inr PyNone, received)"
  shows "concat received = []"
proof -
  from assms have run:
    "process_chunks api tab_type page_size (wallet_chunks first_day last_day) [] {} []
      = Some ([], received)"
    by (auto simp: get_wallet_transactions_chunked_def split: option.splits if_splits)
  from process_chunks_invariant [OF run] have
    "get_transaction_key ` set [] = get_transaction_key ` set (concat received)"
    by simp
  then show ?thesis
    by simp
qed

text \<open>
  C2, as amended. The windowed wallet fetch keeps one set of keys for the whole call: the
  transactions it returns have pairwise different keys, their keys are those of all the
  pages received in all windows, and so their number is the number of distinct keys. The
  cursor-paginated fetch has no such set: it returns the pages received one after the
  other, duplicates included.
\<close>

theorem wallet_fetch_dedups_cursor_fetch_concatenates:
  "(get_wallet_transactions_chunked api first_day last_day tab_type page_size
      = Some (Inr (Response txs), received) \<longrightarrow>
      distinct (map get_transaction_key txs) \<and>
      get_transaction_key ` set txs = get_transaction_key ` set (concat received) \<and>
      length txs = card (get_transaction_key ` set (concat received))) \<and>
   (get_wallet_transactions_chunked api first_day last_day tab_type page_size
      = Some (Inr PyNone, received) \<longrightarrow> concat received = []) \<and>
   (fetch_pages order_api p [] None 0 [] = Some (all_data, page_count, pages) \<longrightarrow>
      all_data = concat pages)"
proof -
  have w: "get_wallet_transactions_chunked api first_day last_day tab_type page_size
      = Some (Inr (Response txs), received) \<longrightarrow>
      distinct (map get_transaction_key txs) \<and>
      get_transaction_key ` set txs = get_transaction_key ` set (concat received) \<and>
      length txs = card (get_transaction_key ` set (concat received))"
    using chunked_response_keys by blast
  have n: "get_wallet_transactions_chunked api first_day last_day tab_type page_size
      = Some (Inr PyNone, received) \<longrightarrow> concat received = []"
    using chunked_none_pages by blast
  have c: "fetch_pages order_api p [] None 0 [] = Some (all_data, page_count, pages) \<longrightarrow>
      all_data = concat pages"
    using fetch_pages_concat [of order_api p "[]" None 0 "[]" "(all_data, page_count, pages)"]
    by simp
  from w n c show ?thesis
    by (intro conjI)
qed

lemma april_2024: "month_range 2024 4 = Some (63847526400, 63850118399)"
  by (simp add: month_range_def datetime_def days_in_month_def days_before_month_def
      days_before_year_def is_leap_def)

lemma april_2024_chunks:
  "wallet_chunks 63847526400 63850118399 =
     [(63847526400, 63848736000), (63848736001, 63849945601), (63849945602, 63850118399)]"
  by (simp add: wallet_chunks.simps)

lemma boundary_wallet_range:
  "process_date_range boundary_wallet start_date end_date None 100
     = Some (Some [boundary_transaction], [[boundary_transaction]])"
  by (simp add: process_date_range_def date_range_loop.simps boundary_wallet_def)

lemma boundary_wallet_chunked:
  "get_wallet_transactions_chunked boundary_wallet 63847526400 63850118399 None 100 =
     Some (Inr (Response [boundary_transaction]),
           [[boundary_transaction], [boundary_transaction], [boundary_transaction]])"
  by (simp add: get_wallet_transactions_chunked_def april_2024_chunks boundary_wallet_range
      verify_date_coverage_raises_def boundary_transaction_def)

lemma repeating_server_pages:
  "fetch_pages repeating_server () [] None 0 [] =
     Some ([''240401ABC'', ''240401ABC''], 2, [[''240401ABC''], [''240401ABC'']])"
  by (simp add: fetch_pages.simps repeating_server_def truthy_def)

theorem wallet_fetch_dedups_cursor_fetch_concatenates_witness:
  "get_wallet_transactions_chunked boundary_wallet 63847526400 63850118399 None 100 =
     Some (Inr (Response [boundary_transaction]),
           [[boundary_transaction], [boundary_transaction], [boundary_transaction]]) \<and>
   length [boundary_transaction] = card (get_transaction_key `
     set (concat [[boundary_transaction], [boundary_transaction], [boundary_transaction]])) \<and>
   get_wallet_transactions_chunked empty_wallet 63847526400 63850118399 None 100
     = Some (Inr PyNone, [[], [], []]) \<and>
   fetch_pages repeating_server () [] None 0 [] =
     Some ([''240401ABC'', ''240401ABC''], 2, [[''240401ABC''], [''240401ABC'']]) \<and>
   [''240401ABC'', ''240401ABC''] = concat [[''240401ABC''], [''240401ABC'']]"
proof -
  have e: "get_wallet_transactions_chunked empty_wallet 63847526400 63850118399 None 100
     = Some (Inr PyNone, [[], [], []])"
    by (simp add: get_wallet_transactions_chunked_def april_2024_chunks process_date_range_def
        date_range_loop.simps empty_wallet_def)
  note t = wallet_fetch_dedups_cursor_fetch_concatenates
    [of boundary_wallet 63847526400 63850118399 None 100 "[boundary_transaction]"
      "[[boundary_transaction], [boundary_transaction], [boundary_transaction]]"
      repeating_server "()" "[''240401ABC'', ''240401ABC'']" 2 "[[''240401ABC''], [''240401ABC'']]"]
  from t boundary_wallet_chunked have
    "length [boundary_transaction] = card (get_transaction_key `
       set (concat [[boundary_transaction], [boundary_transaction], [boundary_transaction]]))"
    by blast
  moreover from t repeating_server_pages have
    "[''240401ABC'', ''240401ABC''] = concat [[''240401ABC''], [''240401ABC'']]"
    by blast
  ultimately show ?thesis
    using boundary_wallet_chunked e repeating_server_pages by (intro conjI)
qed

text \<open>
  C2 as stated fails for the cursor-paginated fetch: a server that returns the same order
  on two pages gets it back twice, two records for one distinct key.
\<close>

theorem cursor_fetch_keeps_duplicates_counterexample:
  "fetch_pages repeating_server () [] None 0 [] =
     Some ([''240401ABC'', ''240401ABC''], 2, [[''240401ABC''], [''240401ABC'']]) \<and>
   fetch_paginated_data repeating_server () = Some [''240401ABC'', ''240401ABC''] \<and>
   length [''240401ABC'', ''240401ABC'']
     \<noteq> card (set (concat [[''240401ABC''], [''240401ABC'']]))"
  by (simp add: fetch_paginated_data_def repeating_server_pages)






lemma wallet_chunks_unfold:
  assumes "current_start \<le> last_day"
  shows "wallet_chunks current_start last_day =
    (current_start, min (current_start + 1209600) last_day)
      # wallet_chunks (min (current_start + 1209600) last_day + 1) last_day"
  using assms by (subst wallet_chunks.simps) (simp add: Let_def min_def)

lemma wallet_chunks_empty:
  assumes "\<not> current_start \<le> last_day"
  shows "wallet_chunks current_start last_day = []"
  using assms by (subst wallet_chunks.simps) simp

lemma wallet_chunks_induct [consumes 0, case_names empty window]:
  assumes "\<And>s e :: int. \<not> s \<le> e \<Longrightarrow> P s e"
    and "\<And>s e :: int. s \<le> e \<Longrightarrow> P (min (s + 1209600) e + 1) e \<Longrightarrow> P s e"
  shows "P (s :: int) (e :: int)"
proof (induction s e rule: wallet_chunks.induct)
  case (1 current_start last_day)
  show ?case
  proof (cases "current_start \<le> last_day")
    case False
    then show ?thesis by (rule assms(1))
  next
    case True
    have "P ((if last_day < current_start + 14 * 86400 then last_day
              else current_start + 14 * 86400) + 1) last_day"
      by (rule "1.IH" [OF True refl refl])
    moreover have "(if last_day < current_start + 14 * 86400 then last_day
              else current_start + 14 * 86400) + 1 = min (current_start + 1209600) last_day + 1"
      by (simp add: min_def)
    ultimately have "P (min (current_start + 1209600) last_day + 1) last_day"
      by (simp only:)
    with True show ?thesis by (rule assms(2))
  qed
qed

text \<open>
  The windows of the loop, whatever their number: each is
  \<open>[w, min (w + 14 days) end]\<close>, the next one starts one second after the previous one
  ends, they do not overlap, and together they are exactly \<open>[start, end]\<close>.
\<close>

lemma wallet_chunks_cover:
  "(\<Union>(a, b) \<in> set (wallet_chunks s e). {a..b}) = {s..e}"
proof (induction s e rule: wallet_chunks_induct)
  case (empty s e)
  then show ?case by (simp add: wallet_chunks_empty)
next
  case (window s e)
  let ?b = "min (s + 1209600) e"
  have "{s..?b} \<union> {?b + 1..e} = {s..e}"
    using window.hyps by auto
  with window.IH show ?case
    by (simp add: wallet_chunks_unfold [OF window.hyps])
qed

lemma wallet_chunks_bounds:
  assumes "(a, b) \<in> set (wallet_chunks s e)"
  shows "s \<le> a \<and> a \<le> b \<and> b \<le> e \<and> b = min (a + 1209600) e"
  using assms
proof (induction s e rule: wallet_chunks_induct)
  case (empty s e)
  then show ?case by (simp add: wallet_chunks_empty)
next
  case (window s e)
  from window.prems have "(a, b) = (s, min (s + 1209600) e)
      \<or> (a, b) \<in> set (wallet_chunks (min (s + 1209600) e + 1) e)"
    by (simp add: wallet_chunks_unfold [OF window.hyps])
  then show ?case
  proof
    assume "(a, b) = (s, min (s + 1209600) e)"
    with window.hyps show ?thesis by auto
  next
    assume "(a, b) \<in> set (wallet_chunks (min (s + 1209600) e + 1) e)"
    from window.IH [OF this] window.hyps show ?thesis by auto
  qed
qed

lemma wallet_chunks_consecutive:
  assumes "Suc i < length (wallet_chunks s e)"
  shows "fst (wallet_chunks s e ! Suc i) = snd (wallet_chunks s e ! i) + 1"
  using assms
proof (induction s e arbitrary: i rule: wallet_chunks_induct)
  case (empty s e)
  then show ?case by (simp add: wallet_chunks_empty)
next
  case (window s e)
  let ?next = "min (s + 1209600) e + 1"
  note u = wallet_chunks_unfold [OF window.hyps]
  show ?case
  proof (cases i)
    case 0
    with window.prems have ne: "wallet_chunks ?next e \<noteq> []"
      by (simp add: u)
    have "?next \<le> e"
    proof (rule ccontr)
      assume "\<not> ?next \<le> e"
      from wallet_chunks_empty [OF this] ne show False by contradiction
    qed
    from wallet_chunks_unfold [OF this] 0 show ?thesis
      by (simp add: u)
  next
    case (Suc j)
    with window.prems have "Suc j < length (wallet_chunks ?next e)"
      by (simp add: u)
    from window.IH [OF this] Suc show ?thesis
      by (simp add: u)
  qed
qed

lemma wallet_chunks_disjoint:
  assumes "i < j" and "j < length (wallet_chunks s e)"
  shows "snd (wallet_chunks s e ! i) < fst (wallet_chunks s e ! j)"
  using assms
proof (induction s e arbitrary: i j rule: wallet_chunks_induct)
  case (empty s e)
  then show ?case by (simp add: wallet_chunks_empty)
next
  case (window s e)
  let ?next = "min (s + 1209600) e + 1"
  note u = wallet_chunks_unfold [OF window.hyps]
  from window.prems obtain j' where j: "j = Suc j'" "j' < length (wallet_chunks ?next e)"
    by (cases j) (simp_all add: u)
  show ?case
  proof (cases i)
    case 0
    obtain a b where ab: "wallet_chunks ?next e ! j' = (a, b)"
      by (cases "wallet_chunks ?next e ! j'") auto
    with j(2) have "(a, b) \<in> set (wallet_chunks ?next e)"
      by (metis nth_mem)
    from wallet_chunks_bounds [OF this] have "?next \<le> a" by simp
    with 0 j ab show ?thesis by (simp add: u)
  next
    case (Suc i')
    with window.prems j have "i' < j'" by simp
    from window.IH [OF this j(2)] Suc j show ?thesis by (simp add: u)
  qed
qed

lemma wallet_chunks_length:
  assumes "s \<le> e"
  shows "int (length (wallet_chunks s e)) = (e - s) div 1209601 + 1"
  using assms
proof (induction s e rule: wallet_chunks_induct)
  case (empty s e)
  then show ?case by simp
next
  case (window s e)
  note u = wallet_chunks_unfold [OF window.hyps]
  show ?case
  proof (cases "s + 1209600 < e")
    case True
    then have m: "min (s + 1209600) e + 1 = s + 1209601" by simp
    from True have le: "s + 1209601 \<le> e" by simp
    have "int (length (wallet_chunks (s + 1209601) e))
        = (e - (s + 1209601)) div 1209601 + 1"
      by (rule window.IH [unfolded m, OF le])
    moreover have "(e - s) div 1209601 = (e - (s + 1209601)) div 1209601 + 1"
    proof -
      have "e - s = (e - (s + 1209601)) + 1 * 1209601" by simp
      then show ?thesis by (metis div_add_self2 mult_1 zero_neq_numeral)
    qed
    ultimately show ?thesis by (simp add: u m)
  next
    case False
    then have "min (s + 1209600) e + 1 = e + 1" by simp
    moreover have "wallet_chunks (e + 1) e = []" by (simp add: wallet_chunks_empty)
    moreover have "(e - s) div 1209601 = 0"
      using False window.hyps by simp
    ultimately show ?thesis by (simp add: u)
  qed
qed

text \<open>
  C1, at a month of 30 days: April 2024 runs from 2024-04-01 00:00:00 to 2024-04-30
  23:59:59, which is 30 days of 86400 seconds. The loop cuts it into three windows, the
  first two of 14 days and one second, where \<open>\<lceil>30 / 15\<rceil>\<close> is two.
\<close>

theorem thirty_day_month_has_three_windows:
  "month_range 2024 4 = Some (63847526400, 63850118399) \<and>
   63850118399 + 1 - 63847526400 = 30 * (86400 :: int) \<and>
   wallet_chunks 63847526400 63850118399 =
     [(63847526400, 63848736000), (63848736001, 63849945601), (63849945602, 63850118399)] \<and>
   length (wallet_chunks 63847526400 63850118399) = 3 \<and>
   nat \<lceil>(30 :: rat) / 15\<rceil> = 2"
  by (simp add: april_2024 april_2024_chunks)

end
